theory Spec2Isabelle
  imports Main "HOL-Library.Sublist"
begin

section \<open>Python string primitives\<close>

text \<open>
  Python strings are modelled as \<open>string\<close> (lists of 8-bit characters) and the case
  mappings follow \<open>str.lower\<close>, \<open>str.upper\<close> and \<open>str.capitalize\<close> on ASCII text: the
  letters \<open>A\<close>..\<open>Z\<close> and \<open>a\<close>..\<open>z\<close> are mapped onto each other and every other character
  has no case. The development is therefore about ASCII input.
\<close>

definition lower_char :: "char \<Rightarrow> char" where
  "lower_char c =
     (case map_of (zip ''ABCDEFGHIJKLMNOPQRSTUVWXYZ'' ''abcdefghijklmnopqrstuvwxyz'') c of
        None \<Rightarrow> c
      | Some d \<Rightarrow> d)"

definition upper_char :: "char \<Rightarrow> char" where
  "upper_char c =
     (case map_of (zip ''abcdefghijklmnopqrstuvwxyz'' ''ABCDEFGHIJKLMNOPQRSTUVWXYZ'') c of
        None \<Rightarrow> c
      | Some d \<Rightarrow> d)"

text \<open>\<open>s.lower()\<close>\<close>

definition str_lower :: "string \<Rightarrow> string" where
  "str_lower s = map lower_char s"

text \<open>\<open>s.capitalize()\<close>: the first character upper-cased, all the others lower-cased.\<close>

fun str_capitalize :: "string \<Rightarrow> string" where
  "str_capitalize [] = []"
| "str_capitalize (c # cs) = upper_char c # map lower_char cs"

text \<open>\<open>a in b\<close> on strings: \<open>a\<close> is a contiguous substring of \<open>b\<close>.\<close>

fun str_in :: "string \<Rightarrow> string \<Rightarrow> bool" where
  "str_in a [] = (a = [])"
| "str_in a (c # cs) = (prefix a (c # cs) \<or> str_in a cs)"

text \<open>
  \<open>s.replace(old, new)\<close> for a non-empty \<open>old\<close>: a scan from the left that replaces the
  leftmost occurrence and resumes right after it, so the replaced occurrences never
  overlap. Only called with \<open>old \<noteq> []\<close>.
\<close>

fun replace_scan :: "string \<Rightarrow> string \<Rightarrow> string \<Rightarrow> string" where
  "replace_scan old new [] = []"
| "replace_scan old new (c # cs) =
     (if prefix old (c # cs) then new @ replace_scan old new (drop (length old - 1) cs)
      else c # replace_scan old new cs)"

text \<open>
  \<open>s.replace(old, new)\<close>. With an empty \<open>old\<close> Python inserts \<open>new\<close> before every character
  and at the end (\<open>'abc'.replace('', '-') == '-a-b-c-'\<close>).
\<close>

definition str_replace :: "string \<Rightarrow> string \<Rightarrow> string \<Rightarrow> string" where
  "str_replace s old new =
     (if old = [] then new @ concat (map (\<lambda>c. c # new) s) else replace_scan old new s)"

section \<open>Prohibited-word scrubbing\<close>

text \<open>
  The rule configuration is loaded from YAML, so an entry of the word list or a value of
  the replacement mapping may be any YAML value. \<open>NonStr\<close> stands for every value that is
  not a string (a number, a boolean, null, a list, a mapping): none of them has a
  \<open>lower\<close> method, and \<open>str.replace\<close> rejects them as an argument.
\<close>

datatype pyval = Str string | NonStr

datatype error = AttributeError | TypeError

text \<open>
  \<open>self.prohibited_config\<close>: the list under \<open>'prohibited_words'\<close> and the dict under
  \<open>'replacements'\<close>. The dict is only ever consulted with a string key.
\<close>

record prohibited_config =
  prohibited_words :: "pyval list"
  replacements :: "string \<rightharpoonup> pyval"

text \<open>
  The \<open>for word in ...\<close> loop of \<open>detect_prohibited_words\<close>; the state is the pair
  \<open>(clean_text, detected_words)\<close>. \<open>word.lower()\<close> raises \<open>AttributeError\<close> on a word that
  is not a string, \<open>clean_text.replace(word, replacement)\<close> raises \<open>TypeError\<close> on a
  replacement that is not a string.
\<close>

fun detect_loop ::
  "(string \<rightharpoonup> pyval) \<Rightarrow> string \<Rightarrow> pyval list \<Rightarrow> string \<times> string list
     \<Rightarrow> error + string \<times> string list" where
  "detect_loop repl text [] (clean_text, detected_words) = Inr (clean_text, detected_words)"
| "detect_loop repl text (NonStr # ws) (clean_text, detected_words) = Inl AttributeError"
| "detect_loop repl text (Str word # ws) (clean_text, detected_words) =
     (if str_in (str_lower word) (str_lower text) then
        (case (case repl word of None \<Rightarrow> Str word | Some r \<Rightarrow> r) of
           NonStr \<Rightarrow> Inl TypeError
         | Str replacement \<Rightarrow>
             detect_loop repl text ws
               (str_replace (str_replace clean_text word replacement)
                  (str_capitalize word) (str_capitalize replacement),
                detected_words @ [word]))
      else detect_loop repl text ws (clean_text, detected_words))"

definition detect_prohibited_words ::
  "prohibited_config \<Rightarrow> string \<Rightarrow> error + string \<times> string list" where
  "detect_prohibited_words cfg text =
     detect_loop (replacements cfg) text (prohibited_words cfg) (text, [])"

text \<open>
  A well-formed rule configuration: every listed word is a string, and the replacement
  configured for a listed word, if any, is a string.
\<close>

fun wf_word :: "(string \<rightharpoonup> pyval) \<Rightarrow> pyval \<Rightarrow> bool" where
  "wf_word repl NonStr = False"
| "wf_word repl (Str word) = (repl word \<noteq> Some NonStr)"

definition well_formed :: "prohibited_config \<Rightarrow> bool" where
  "well_formed cfg = list_all (wf_word (replacements cfg)) (prohibited_words cfg)"

text \<open>The terms of the rule set, in rule order.\<close>

fun terms_of :: "pyval list \<Rightarrow> string list" where
  "terms_of [] = []"
| "terms_of (Str word # ws) = word # terms_of ws"
| "terms_of (NonStr # ws) = terms_of ws"

text \<open>Case-insensitive occurrence of a term in a text, as the loop tests it.\<close>

definition occurs_ci :: "string \<Rightarrow> string \<Rightarrow> bool" where
  "occurs_ci word text = str_in (str_lower word) (str_lower text)"

section \<open>Knowledge base search\<close>

text \<open>An entry of \<open>self.knowledge_base['knowledge_items']\<close>.\<close>

record knowledge_item =
  item_id :: string
  item_title :: string
  item_content :: string
  item_tags :: "string list"

text \<open>
  The \<open>tags\<close> argument defaults to \<open>None\<close>; \<open>if tags:\<close> holds for a non-empty list only.
\<close>

fun selected_tags :: "string list option \<Rightarrow> string list" where
  "selected_tags None = []"
| "selected_tags (Some ts) = ts"

text \<open>
  The \<open>elif\<close> condition
  \<open>query and query.lower() in item['title'].lower() or query.lower() in item['content'].lower()\<close>.
  Python reads \<open>a and b or c\<close> as \<open>(a and b) or c\<close>: when \<open>query\<close> is \<open>None\<close> or empty the left
  operand is falsy and the right operand is evaluated, which calls \<open>query.lower()\<close> and
  raises \<open>AttributeError\<close> on \<open>None\<close>.
\<close>

fun query_matches :: "string option \<Rightarrow> knowledge_item \<Rightarrow> error + bool" where
  "query_matches None item = Inl AttributeError"
| "query_matches (Some query) item =
     Inr ((query \<noteq> [] \<and> str_in (str_lower query) (str_lower (item_title item)))
          \<or> str_in (str_lower query) (str_lower (item_content item)))"

text \<open>The \<open>for item in ...\<close> loop of \<open>search_knowledge\<close>, with \<open>results\<close> as accumulator.\<close>

fun search_loop ::
  "string list option \<Rightarrow> string option \<Rightarrow> knowledge_item list \<Rightarrow> knowledge_item list
     \<Rightarrow> error + knowledge_item list" where
  "search_loop tags query [] results = Inr results"
| "search_loop tags query (item # items) results =
     (if selected_tags tags \<noteq> [] then
        (if list_ex (\<lambda>tag. tag \<in> set (item_tags item)) (selected_tags tags)
         then search_loop tags query items (results @ [item])
         else search_loop tags query items results)
      else
        (case query_matches query item of
           Inl e \<Rightarrow> Inl e
         | Inr matches \<Rightarrow>
             if matches then search_loop tags query items (results @ [item])
             else search_loop tags query items results))"

definition search_knowledge ::
  "knowledge_item list \<Rightarrow> string list option \<Rightarrow> string option \<Rightarrow> error + knowledge_item list" where
  "search_knowledge knowledge_items tags query = search_loop tags query knowledge_items []"

text \<open>An item shares at least one tag with the selected tags.\<close>

definition shares_tag :: "string list \<Rightarrow> knowledge_item \<Rightarrow> bool" where
  "shares_tag ts item = (set ts \<inter> set (item_tags item) \<noteq> {})"

section \<open>Prompt assembly\<close>

record product_details =
  p_name :: string
  p_type :: string
  p_features :: string
  p_uvp :: string

record audience_details =
  a_primary :: string
  a_pain_points :: string
  a_desired_outcomes :: string

record customization =
  c_tone :: string
  c_length :: string
  c_emphasis :: string

text \<open>The newline character, and the eight blanks that indent every line of the template.\<close>

abbreviation nl :: string where
  "nl \<equiv> [CHR 0x0A]"

abbreviation ind :: string where
  "ind \<equiv> ''        ''"

text \<open>The header line of the reference-knowledge section, and the header string itself.\<close>

definition header_line :: string where
  "header_line = ''RELEVANT COPYWRITING KNOWLEDGE:''"

definition knowledge_header :: string where
  "knowledge_header = header_line @ nl"

text \<open>What one resolved snippet appends: \<open>f"\n{title}:\n{content}\n"\<close>.\<close>

definition snippet :: "knowledge_item \<Rightarrow> string" where
  "snippet knowledge_item =
     nl @ item_title knowledge_item @ '':'' @ nl @ item_content knowledge_item @ nl"

text \<open>
  The \<open>for knowledge_id in selected_knowledge\<close> loop: the first catalog item with the id
  is looked up, an id that does not resolve adds nothing.
\<close>

fun context_loop :: "knowledge_item list \<Rightarrow> string list \<Rightarrow> string \<Rightarrow> string" where
  "context_loop knowledge_items [] knowledge_context = knowledge_context"
| "context_loop knowledge_items (knowledge_id # ids) knowledge_context =
     (case find (\<lambda>item. item_id item = knowledge_id) knowledge_items of
        None \<Rightarrow> context_loop knowledge_items ids knowledge_context
      | Some knowledge_item \<Rightarrow>
          context_loop knowledge_items ids (knowledge_context @ snippet knowledge_item))"

definition build_knowledge_context :: "knowledge_item list \<Rightarrow> string list \<Rightarrow> string" where
  "build_knowledge_context knowledge_items selected_knowledge =
     (if selected_knowledge = [] then []
      else context_loop knowledge_items selected_knowledge knowledge_header)"

text \<open>
  The f-string template of \<open>generate_sales_letter\<close>, line by line: the text up to the
  place where \<open>{knowledge_context}\<close> is interpolated, and the text after it.
\<close>

definition prompt_before ::
  "product_details \<Rightarrow> audience_details \<Rightarrow> customization \<Rightarrow> string" where
  "prompt_before product audience custom =
     nl @
     ind @ ''Generate a high-converting sales letter with the following specifications:'' @ nl @
     ind @ nl @
     ind @ ''PRODUCT DETAILS:'' @ nl @
     ind @ ''- Name: '' @ p_name product @ nl @
     ind @ ''- Type: '' @ p_type product @ nl @
     ind @ ''- Key Features: '' @ p_features product @ nl @
     ind @ ''- Unique Value Proposition: '' @ p_uvp product @ nl @
     ind @ nl @
     ind @ ''TARGET AUDIENCE:'' @ nl @
     ind @ ''- Primary Audience: '' @ a_primary audience @ nl @
     ind @ ''- Pain Points: '' @ a_pain_points audience @ nl @
     ind @ ''- Desired Outcomes: '' @ a_desired_outcomes audience @ nl @
     ind @ nl @
     ind @ ''CUSTOMIZATION:'' @ nl @
     ind @ ''- Tone: '' @ c_tone custom @ nl @
     ind @ ''- Length: '' @ c_length custom @ nl @
     ind @ ''- Key Emphasis: '' @ c_emphasis custom @ nl @
     ind @ nl @
     ind"

definition prompt_after :: string where
  "prompt_after =
     nl @
     ind @ nl @
     ind @ ''REQUIREMENTS:'' @ nl @
     ind @ ''1. Structure the letter with clear sections'' @ nl @
     ind @ ''2. Use persuasive copywriting techniques'' @ nl @
     ind @ ''3. Include emotional triggers'' @ nl @
     ind @ ''4. Create a compelling narrative'' @ nl @
     ind @ ''5. End with strong call-to-action'' @ nl @
     ind @ ''6. Format in Markdown with clear headings'' @ nl @
     ind @ nl @
     ind @ ''IMPORTANT: Avoid using any marketing hype or exaggerated claims. Focus on genuine value and benefits.'' @ nl @
     ind @ nl @
     ind @ ''Generate the sales letter:'' @ nl @
     ind"

definition prompt_template ::
  "product_details \<Rightarrow> audience_details \<Rightarrow> customization \<Rightarrow> string \<Rightarrow> string" where
  "prompt_template product audience custom knowledge_context =
     prompt_before product audience custom @ knowledge_context @ prompt_after"

text \<open>
  The prompt that \<open>generate_sales_letter\<close> hands to the generation service (the service
  call itself is outside the model).
\<close>

definition sales_letter_prompt ::
  "knowledge_item list \<Rightarrow> product_details \<Rightarrow> audience_details \<Rightarrow> customization
     \<Rightarrow> string list \<Rightarrow> string" where
  "sales_letter_prompt knowledge_items product audience custom selected_knowledge =
     prompt_template product audience custom
       (build_knowledge_context knowledge_items selected_knowledge)"

text \<open>The ten user-supplied field values that the template interpolates.\<close>

definition field_values ::
  "product_details \<Rightarrow> audience_details \<Rightarrow> customization \<Rightarrow> string list" where
  "field_values product audience custom =
     [p_name product, p_type product, p_features product, p_uvp product,
      a_primary audience, a_pain_points audience, a_desired_outcomes audience,
      c_tone custom, c_length custom, c_emphasis custom]"

section \<open>Auxiliary notions for stating the scrubbing properties\<close>

text \<open>A term with only its first character upper-cased.\<close>

fun capitalized_first :: "string \<Rightarrow> string" where
  "capitalized_first [] = []"
| "capitalized_first (c # cs) = upper_char c # cs"





text \<open>
  Follows the words of the specification, not the code: what scrubbing with one rule is
  said to do to a text. One pass from the left replaces every occurrence of the term by
  the replacement and every occurrence of the term with only its first character
  upper-cased by the capitalised replacement; every other character, and so every
  occurrence in another casing, is copied as it is.
\<close>

fun scrub_as_claimed :: "string \<Rightarrow> string \<Rightarrow> string \<Rightarrow> string" where
  "scrub_as_claimed word replacement [] = []"
| "scrub_as_claimed word replacement (c # cs) =
     (if prefix word (c # cs)
      then replacement @ scrub_as_claimed word replacement (drop (length word - 1) cs)
      else if prefix (capitalized_first word) (c # cs)
      then str_capitalize replacement
             @ scrub_as_claimed word replacement (drop (length word - 1) cs)
      else c # scrub_as_claimed word replacement cs)"

section \<open>Auxiliary notions for scanning the prompt template\<close>

text \<open>
  Two strings differ at a position that both of them have, so neither is a prefix of the
  other.
\<close>

fun mismatch :: "string \<Rightarrow> string \<Rightarrow> bool" where
  "mismatch (x # xs) (y # ys) = (x \<noteq> y \<or> mismatch xs ys)"
| "mismatch [] ys = False"
| "mismatch xs [] = False"

text \<open>
  No occurrence of \<open>h\<close> can start inside the literal text \<open>l\<close>, whatever follows \<open>l\<close>.
\<close>

fun lit_clear :: "string \<Rightarrow> string \<Rightarrow> bool" where
  "lit_clear h [] = True"
| "lit_clear h (c # l) = (mismatch h (c # l) \<and> lit_clear h l)"

section \<open>Facts about the string primitives\<close>

lemma str_in_sublist: "str_in a b = sublist a b"
  by (induction b) (simp_all add: sublist_Cons_right)

lemma str_in_Nil [simp]: "str_in [] s"
  by (cases s) simp_all


section \<open>Properties of the scrubbing loop\<close>

lemma detect_loop_wf:
  "list_all (wf_word repl) ws \<Longrightarrow>
     \<exists>clean. detect_loop repl text ws (c, d) =
        Inr (clean, d @ filter (\<lambda>w. occurs_ci w text) (terms_of ws))"
proof (induction ws arbitrary: c d)
  case Nil
  then show ?case by simp
next
  case (Cons v ws)
  show ?case
  proof (cases v)
    case NonStr
    with Cons.prems show ?thesis by simp
  next
    case (Str word)
    with Cons.prems have ok: "repl word \<noteq> Some NonStr" and rest: "list_all (wf_word repl) ws"
      by simp_all
    show ?thesis
    proof (cases "occurs_ci word text")
      case False
      with Str Cons.IH [OF rest, of c d] show ?thesis by (simp add: occurs_ci_def)
    next
      case True
      from ok obtain r where r: "(case repl word of None \<Rightarrow> Str word | Some r \<Rightarrow> r) = Str r"
        by (cases "repl word") (auto intro: pyval.exhaust)
      from Cons.IH [OF rest, of _ "d @ [word]"] True Str r show ?thesis
        by (simp add: occurs_ci_def)
    qed
  qed
qed

lemma detect_loop_none:
  "\<forall>w \<in> set ws. \<not> occurs_ci w text \<Longrightarrow>
     detect_loop repl text (map Str ws) (c, d) = Inr (c, d)"
  by (induction ws) (simp_all add: occurs_ci_def)

lemma count_list_filter_le: "count_list (filter P xs) x \<le> count_list xs x"
  by (induction xs) auto

text \<open>
  C4. A text in which no prohibited term occurs under case-insensitive substring
  matching is returned unchanged, together with an empty list of detected terms.
\<close>

theorem scrub_without_match_is_identity:
  assumes "prohibited_words cfg = map Str ws"
    and "\<forall>w \<in> set ws. \<not> occurs_ci w text"
  shows "detect_prohibited_words cfg text = Inr (text, [])"
  using assms by (simp add: detect_prohibited_words_def detect_loop_none)

theorem scrub_without_match_is_identity_witness:
  "prohibited_words \<lparr>prohibited_words = [Str ''synergy'', Str ''guru''],
        replacements = [''synergy'' \<mapsto> Str ''teamwork'']\<rparr> = map Str [''synergy'', ''guru'']
   \<and> \<not> occurs_ci ''synergy'' ''A plain Letter.'' \<and> \<not> occurs_ci ''guru'' ''A plain Letter.''
   \<and> detect_prohibited_words \<lparr>prohibited_words = [Str ''synergy'', Str ''guru''],
        replacements = [''synergy'' \<mapsto> Str ''teamwork'']\<rparr> ''A plain Letter.''
       = Inr (''A plain Letter.'', [])"
proof -
  have h1: "prohibited_words \<lparr>prohibited_words = [Str ''synergy'', Str ''guru''],
        replacements = [''synergy'' \<mapsto> Str ''teamwork'']\<rparr> = map Str [''synergy'', ''guru'']"
    by simp
  have h2: "\<forall>w \<in> set [''synergy'', ''guru'']. \<not> occurs_ci w ''A plain Letter.''"
    by code_simp
  from scrub_without_match_is_identity [OF h1 h2] h1 h2 show ?thesis by simp
qed

text \<open>
  C5, as amended. For a well-formed rule set the detected list is the list of rule
  terms, in rule order, restricted to the terms that occur case-insensitively in the
  original input text: every rule contributes its term once if the term occurs, however
  often, and not at all otherwise. A term is therefore listed no more often than the
  rule set lists it, and at most once when the rule set lists no term twice.
\<close>

theorem detected_terms_in_rule_order:
  assumes "well_formed cfg"
  shows "\<exists>clean detected.
           detect_prohibited_words cfg text = Inr (clean, detected)
           \<and> detected = filter (\<lambda>w. occurs_ci w text) (terms_of (prohibited_words cfg))
           \<and> (\<forall>w. count_list detected w \<le> count_list (terms_of (prohibited_words cfg)) w)
           \<and> (distinct (terms_of (prohibited_words cfg)) \<longrightarrow> distinct detected)"
proof -
  from assms obtain clean where
    "detect_prohibited_words cfg text =
       Inr (clean, filter (\<lambda>w. occurs_ci w text) (terms_of (prohibited_words cfg)))"
    using detect_loop_wf [of "replacements cfg" "prohibited_words cfg" "text" "text" "[]"]
    by (auto simp: well_formed_def detect_prohibited_words_def)
  then show ?thesis by (simp add: count_list_filter_le)
qed

theorem detected_terms_in_rule_order_witness:
  "well_formed \<lparr>prohibited_words = [Str ''guru'', Str ''synergy'', Str ''hack''],
        replacements = [''synergy'' \<mapsto> Str ''teamwork'']\<rparr>
   \<and> (\<exists>clean. detect_prohibited_words
          \<lparr>prohibited_words = [Str ''guru'', Str ''synergy'', Str ''hack''],
            replacements = [''synergy'' \<mapsto> Str ''teamwork'']\<rparr> ''Hack the SYNERGY, synergy!''
       = Inr (clean, [''synergy'', ''hack'']))"
proof -
  have h: "well_formed \<lparr>prohibited_words = [Str ''guru'', Str ''synergy'', Str ''hack''],
        replacements = [''synergy'' \<mapsto> Str ''teamwork'']\<rparr>"
    by code_simp
  have e: "filter (\<lambda>w. occurs_ci w ''Hack the SYNERGY, synergy!'')
             (terms_of [Str ''guru'', Str ''synergy'', Str ''hack'']) = [''synergy'', ''hack'']"
    by code_simp
  from detected_terms_in_rule_order [OF h, of "''Hack the SYNERGY, synergy!''"] h e
  show ?thesis by auto
qed

text \<open>
  The claim as stated fails for a rule set that lists a term twice: both rules match,
  and the term is reported twice.
\<close>

theorem repeated_term_is_detected_twice:
  "detect_prohibited_words
     \<lparr>prohibited_words = [Str ''synergy'', Str ''synergy''], replacements = Map.empty\<rparr>
     ''Synergy''
   = Inr (''Synergy'', [''synergy'', ''synergy''])"
  by code_simp

text \<open>
  C6. Scrubbing is total on well-formed rule configurations: for every text the call
  returns a pair of cleaned text and detected list, and raises nothing; a text without
  matches is an ordinary result.
\<close>

theorem scrubbing_is_total:
  assumes "well_formed cfg"
  shows "\<exists>clean detected. detect_prohibited_words cfg text = Inr (clean, detected)"
  using assms detect_loop_wf [of "replacements cfg" "prohibited_words cfg" "text" "text" "[]"]
  by (auto simp: well_formed_def detect_prohibited_words_def)

theorem scrubbing_is_total_witness:
  "well_formed \<lparr>prohibited_words = [Str ''synergy''], replacements = Map.empty\<rparr>
   \<and> (\<exists>clean detected.
        detect_prohibited_words \<lparr>prohibited_words = [Str ''synergy''], replacements = Map.empty\<rparr>
          ''no match here'' = Inr (clean, detected))"
proof -
  have h: "well_formed \<lparr>prohibited_words = [Str ''synergy''], replacements = Map.empty\<rparr>"
    by code_simp
  from scrubbing_is_total [OF h] h show ?thesis by blast
qed

section \<open>Properties of the knowledge base search\<close>

lemma search_loop_tags:
  "ts \<noteq> [] \<Longrightarrow>
     search_loop (Some ts) query items results = Inr (results @ filter (shares_tag ts) items)"
proof (induction items arbitrary: results)
  case Nil
  then show ?case by simp
next
  case (Cons item items)
  have "list_ex (\<lambda>tag. tag \<in> set (item_tags item)) ts = shares_tag ts item"
    by (auto simp: list_ex_iff shares_tag_def)
  with Cons show ?case by simp
qed

lemma search_loop_empty_query:
  "selected_tags tags = [] \<Longrightarrow>
     search_loop tags (Some []) items results = Inr (results @ items)"
  by (induction items arbitrary: results) (simp_all add: str_lower_def)

text \<open>
  With a non-empty query and no tag selected, the search keeps exactly the items whose
  title or content contains the query case-insensitively, in catalog order.
\<close>

lemma search_loop_query:
  "query \<noteq> [] \<Longrightarrow> selected_tags tags = [] \<Longrightarrow>
     search_loop tags (Some query) items results =
       Inr (results @ filter (\<lambda>item. occurs_ci query (item_title item)
                                     \<or> occurs_ci query (item_content item)) items)"
  by (induction items arbitrary: results) (simp_all add: occurs_ci_def)

lemma nonempty_query_search:
  "query \<noteq> [] \<Longrightarrow>
     search_knowledge knowledge_items None (Some query) =
       Inr (filter (\<lambda>item. occurs_ci query (item_title item)
                             \<or> occurs_ci query (item_content item)) knowledge_items)"
  by (simp add: search_knowledge_def search_loop_query)

text \<open>
  C1. The claim asks that a search with an empty tag set and no query returns the empty
  list. On every non-empty catalog the call raises instead: with no tag selected the
  \<open>elif\<close> condition is evaluated for the first item, and its right operand calls
  \<open>query.lower()\<close> on \<open>None\<close>.
\<close>

theorem empty_tags_without_query_raises:
  "search_knowledge (item # items) (Some []) None = Inl AttributeError"
  by (simp add: search_knowledge_def)

text \<open>
  C2. The claim asks that an empty query string returns the empty list. The call returns
  the whole catalog instead: the guard \<open>query and ...\<close> covers the title test only, and
  the empty string is a substring of every content.
\<close>

theorem empty_query_returns_catalog:
  "search_knowledge knowledge_items None (Some []) = Inr knowledge_items"
  by (simp add: search_knowledge_def search_loop_empty_query)

text \<open>
  C7. With a non-empty tag set the search returns, in catalog order, exactly the items
  that share at least one tag with the set.
\<close>

theorem tag_search_or_semantics:
  assumes "ts \<noteq> []"
  shows "search_knowledge knowledge_items (Some ts) query
           = Inr (filter (shares_tag ts) knowledge_items)"
  using assms by (simp add: search_knowledge_def search_loop_tags)

theorem tag_search_or_semantics_witness:
  "search_knowledge
     [\<lparr>item_id = ''k1'', item_title = ''Urgency'', item_content = ''Limited time offers'',
        item_tags = [''urgency'', ''scarcity'']\<rparr>,
      \<lparr>item_id = ''k2'', item_title = ''Proof'', item_content = ''Quote customers'',
        item_tags = [''social-proof'']\<rparr>]
     (Some [''urgency'']) None
   = Inr [\<lparr>item_id = ''k1'', item_title = ''Urgency'', item_content = ''Limited time offers'',
            item_tags = [''urgency'', ''scarcity'']\<rparr>]"
proof -
  have h: "[''urgency''] \<noteq> []" by simp
  have e: "filter (shares_tag [''urgency''])
     [\<lparr>item_id = ''k1'', item_title = ''Urgency'', item_content = ''Limited time offers'',
        item_tags = [''urgency'', ''scarcity'']\<rparr>,
      \<lparr>item_id = ''k2'', item_title = ''Proof'', item_content = ''Quote customers'',
        item_tags = [''social-proof'']\<rparr>]
     = [\<lparr>item_id = ''k1'', item_title = ''Urgency'', item_content = ''Limited time offers'',
            item_tags = [''urgency'', ''scarcity'']\<rparr>]"
    by code_simp
  from tag_search_or_semantics [OF h] e show ?thesis by simp
qed

text \<open>
  C10. Tag mode takes precedence over query mode: with a non-empty tag set the result is
  the same for any two query arguments, so the query is only ever looked at when no tag
  is selected.
\<close>

theorem tag_mode_ignores_query:
  assumes "ts \<noteq> []"
  shows "search_knowledge knowledge_items (Some ts) query1
           = search_knowledge knowledge_items (Some ts) query2"
  using assms by (simp add: search_knowledge_def search_loop_tags)

theorem tag_mode_ignores_query_witness:
  "search_knowledge
     [\<lparr>item_id = ''k1'', item_title = ''Urgency'', item_content = ''Limited time offers'',
        item_tags = [''urgency'', ''scarcity'']\<rparr>]
     (Some [''urgency'']) None
   = search_knowledge
     [\<lparr>item_id = ''k1'', item_title = ''Urgency'', item_content = ''Limited time offers'',
        item_tags = [''urgency'', ''scarcity'']\<rparr>]
     (Some [''urgency'']) (Some ''proof'')"
proof -
  have h: "[''urgency''] \<noteq> []" by simp
  from tag_mode_ignores_query [OF h] show ?thesis .
qed

section \<open>Properties of the two replacement passes\<close>



lemma capitalized_first_Nil [simp]: "capitalized_first w = [] \<longleftrightarrow> w = []"
  by (cases w) simp_all

lemma tl_capitalized_first [simp]: "tl (capitalized_first w) = tl w"
  by (cases w) simp_all














text \<open>
  A text in which the term occurs in neither of the two casings, for instance in
  all-caps only, is left as it is by the replacement the specification describes.
\<close>

lemma scrub_as_claimed_untouched:
  "\<not> str_in w s \<Longrightarrow> \<not> str_in (capitalized_first w) s \<Longrightarrow>
     scrub_as_claimed w r s = s"
  unfolding str_in_sublist by (induction s) (auto simp: sublist_Cons_right)


text \<open>
  Each of the other conditions on a rule is needed as well. The code and the replacement
  the specification describes differ on the text \<open>uss\<close> when the replacement \<open>xU\<close> ends with
  a character of the capitalised term, on \<open>Uus\<close> when the replacement \<open>sx\<close> begins with one,
  on \<open>Uuss\<close> when the replacement is empty, and on \<open>Aaa\<close> for the term \<open>aa\<close>, which has a
  border: there the first pass takes the exact-case occurrence that overlaps the
  capitalised one.
\<close>

lemma scrub_conditions_are_needed:
  "detect_prohibited_words \<lparr>prohibited_words = [Str ''us''],
       replacements = [''us'' \<mapsto> Str ''xU'']\<rparr> ''uss'' = Inr (''xXu'', [''us''])
   \<and> scrub_as_claimed ''us'' ''xU'' ''uss'' = ''xUs''
   \<and> detect_prohibited_words \<lparr>prohibited_words = [Str ''us''],
       replacements = [''us'' \<mapsto> Str ''sx'']\<rparr> ''Uus'' = Inr (''Sxx'', [''us''])
   \<and> scrub_as_claimed ''us'' ''sx'' ''Uus'' = ''Usx''
   \<and> detect_prohibited_words \<lparr>prohibited_words = [Str ''us''],
       replacements = [''us'' \<mapsto> Str '''']\<rparr> ''Uuss'' = Inr ('''', [''us''])
   \<and> scrub_as_claimed ''us'' '''' ''Uuss'' = ''Us''
   \<and> detect_prohibited_words \<lparr>prohibited_words = [Str ''aa''],
       replacements = [''aa'' \<mapsto> Str ''b'']\<rparr> ''Aaa'' = Inr (''Ab'', [''aa''])
   \<and> scrub_as_claimed ''aa'' ''b'' ''Aaa'' = ''Ba''"
  by code_simp

text \<open>
  Rules act on the running text: what the first rule inserted is an occurrence for the
  second.
\<close>

lemma scrub_rules_act_on_running_text:
  "detect_prohibited_words \<lparr>prohibited_words = [Str ''a'', Str ''b''],
       replacements = [''a'' \<mapsto> Str ''b'', ''b'' \<mapsto> Str ''c'']\<rparr> ''a b''
   = Inr (''c c'', [''a'', ''b''])"
  by code_simp

section \<open>Properties of the prompt assembly\<close>

lemma context_loop_resolved:
  "\<forall>k \<in> set ids. \<exists>it \<in> set items. item_id it = k \<Longrightarrow>
     \<exists>its. map item_id its = ids \<and> set its \<subseteq> set items
          \<and> map (\<lambda>k. find (\<lambda>item. item_id item = k) items) ids = map Some its
          \<and> context_loop items ids acc = acc @ concat (map snippet its)"
proof (induction ids arbitrary: acc)
  case Nil
  then show ?case by simp
next
  case (Cons k ids)
  from Cons.prems obtain it where it: "find (\<lambda>item. item_id item = k) items = Some it"
    by (cases "find (\<lambda>item. item_id item = k) items") (auto simp: find_None_iff)
  then have it_ok: "it \<in> set items" "item_id it = k"
    by (auto simp: find_Some_iff)
  from Cons.prems have "\<forall>k \<in> set ids. \<exists>it \<in> set items. item_id it = k" by simp
  from Cons.IH [OF this, of "acc @ snippet it"] obtain its where
    its: "map item_id its = ids" "set its \<subseteq> set items"
      "map (\<lambda>k. find (\<lambda>item. item_id item = k) items) ids = map Some its"
      "context_loop items ids (acc @ snippet it) = (acc @ snippet it) @ concat (map snippet its)"
    by blast
  show ?case
  proof (intro exI conjI)
    show "map item_id (it # its) = k # ids" using its it_ok by simp
    show "set (it # its) \<subseteq> set items" using its it_ok by simp
    show "map (\<lambda>k. find (\<lambda>item. item_id item = k) items) (k # ids) = map Some (it # its)"
      using its it by simp
    show "context_loop items (k # ids) acc = acc @ concat (map snippet (it # its))"
      using it its by simp
  qed
qed

text \<open>
  C9. For a non-empty selection whose ids all resolve in the catalog, let the items be
  the first catalog items carrying the selected ids, in selection order. The
  reference-knowledge section is the header line \<open>RELEVANT COPYWRITING KNOWLEDGE:\<close> and a
  line break, followed by one snippet per item in that order; a snippet is a line break,
  the item's title, a colon and a line break, the item's content, and a line break, so
  that nothing but \<open>":\n"\<close> stands between a title and its content. The prompt is the
  template text with this section at the place of the knowledge context.
\<close>

theorem knowledge_section_in_selection_order:
  assumes "selected \<noteq> []"
    and "\<forall>k \<in> set selected. \<exists>it \<in> set knowledge_items. item_id it = k"
  shows "\<exists>its. map item_id its = selected \<and> set its \<subseteq> set knowledge_items
           \<and> map (\<lambda>k. find (\<lambda>item. item_id item = k) knowledge_items) selected
               = map Some its
           \<and> build_knowledge_context knowledge_items selected
               = ''RELEVANT COPYWRITING KNOWLEDGE:'' @ nl
                   @ concat (map (\<lambda>it. nl @ item_title it @ '':'' @ nl
                                          @ item_content it @ nl) its)
           \<and> sales_letter_prompt knowledge_items product audience custom selected
               = prompt_before product audience custom
                   @ (''RELEVANT COPYWRITING KNOWLEDGE:'' @ nl
                        @ concat (map (\<lambda>it. nl @ item_title it @ '':'' @ nl
                                               @ item_content it @ nl) its))
                   @ prompt_after"
proof -
  from context_loop_resolved [OF assms(2), of knowledge_header] obtain its where its:
    "map item_id its = selected" "set its \<subseteq> set knowledge_items"
    "map (\<lambda>k. find (\<lambda>item. item_id item = k) knowledge_items) selected = map Some its"
    "context_loop knowledge_items selected knowledge_header
       = knowledge_header @ concat (map snippet its)"
    by blast
  have sn: "snippet = (\<lambda>it. nl @ item_title it @ '':'' @ nl @ item_content it @ nl)"
    by (rule ext) (simp add: snippet_def)
  from assms(1) its(4) have ctx: "build_knowledge_context knowledge_items selected
               = ''RELEVANT COPYWRITING KNOWLEDGE:'' @ nl
                   @ concat (map (\<lambda>it. nl @ item_title it @ '':'' @ nl
                                          @ item_content it @ nl) its)"
    by (simp add: build_knowledge_context_def knowledge_header_def header_line_def sn)
  show ?thesis
    by (intro exI [of _ its] conjI its(1,2,3) ctx)
       (simp only: sales_letter_prompt_def prompt_template_def ctx)
qed

theorem knowledge_section_in_selection_order_witness:
  "build_knowledge_context
     [\<lparr>item_id = ''k1'', item_title = ''Urgency'', item_content = ''Limited time offers'',
        item_tags = [''urgency'', ''scarcity'']\<rparr>,
      \<lparr>item_id = ''k2'', item_title = ''Proof'', item_content = ''Quote customers'',
        item_tags = [''social-proof'']\<rparr>]
     [''k2'', ''k1'']
   = ''RELEVANT COPYWRITING KNOWLEDGE:\<newline>\<newline>Proof:\<newline>Quote customers\<newline>\<newline>Urgency:\<newline>Limited time offers\<newline>''"
proof -
  let ?it1 = "\<lparr>item_id = ''k1'', item_title = ''Urgency'',
                 item_content = ''Limited time offers'', item_tags = [''urgency'', ''scarcity'']\<rparr>"
  let ?it2 = "\<lparr>item_id = ''k2'', item_title = ''Proof'', item_content = ''Quote customers'',
                 item_tags = [''social-proof'']\<rparr>"
  let ?pd = "\<lparr>p_name = [], p_type = [], p_features = [], p_uvp = []\<rparr>"
  let ?ad = "\<lparr>a_primary = [], a_pain_points = [], a_desired_outcomes = []\<rparr>"
  let ?cu = "\<lparr>c_tone = [], c_length = [], c_emphasis = []\<rparr>"
  let ?render = "\<lambda>it. nl @ item_title it @ '':'' @ nl @ item_content it @ nl"
  have h1: "[''k2'', ''k1''] \<noteq> ([] :: string list)" by simp
  have h2: "\<forall>k \<in> set [''k2'', ''k1'']. \<exists>it \<in> set [?it1, ?it2]. item_id it = k"
    by code_simp
  have e1: "map (\<lambda>k. find (\<lambda>item. item_id item = k) [?it1, ?it2]) [''k2'', ''k1'']
              = map Some [?it2, ?it1]"
    by code_simp
  have e2: "''RELEVANT COPYWRITING KNOWLEDGE:'' @ nl @ concat (map ?render [?it2, ?it1])
              = ''RELEVANT COPYWRITING KNOWLEDGE:\<newline>\<newline>Proof:\<newline>Quote customers\<newline>\<newline>Urgency:\<newline>Limited time offers\<newline>''"
    by code_simp
  from knowledge_section_in_selection_order [OF h1 h2, of ?pd ?ad ?cu]
  obtain its where all:
    "map item_id its = [''k2'', ''k1''] \<and> set its \<subseteq> set [?it1, ?it2]
     \<and> map (\<lambda>k. find (\<lambda>item. item_id item = k) [?it1, ?it2]) [''k2'', ''k1'']
         = map Some its
     \<and> build_knowledge_context [?it1, ?it2] [''k2'', ''k1'']
           = ''RELEVANT COPYWRITING KNOWLEDGE:'' @ nl @ concat (map ?render its)
     \<and> sales_letter_prompt [?it1, ?it2] ?pd ?ad ?cu [''k2'', ''k1'']
           = prompt_before ?pd ?ad ?cu
               @ (''RELEVANT COPYWRITING KNOWLEDGE:'' @ nl @ concat (map ?render its))
               @ prompt_after" ..
  note found = all [THEN conjunct2, THEN conjunct2, THEN conjunct1]
    and ctx = all [THEN conjunct2, THEN conjunct2, THEN conjunct2, THEN conjunct1]
  from found e1 have "map Some its = map Some [?it2, ?it1]" by (simp only:)
  then have "its = [?it2, ?it1]" by (rule map_injective) simp
  with ctx e2 show ?thesis by (simp only:)
qed

lemma sublist_cut_last:
  assumes "x \<notin> set m"
  shows "sublist (m @ [x]) (a @ x # b)
           \<longleftrightarrow> sublist (m @ [x]) a \<or> suffix m a \<or> sublist (m @ [x]) b"
proof
  assume "sublist (m @ [x]) (a @ x # b)"
  then consider "sublist (m @ [x]) a" | "sublist (m @ [x]) (x # b)"
    | m1 m2 where "m @ [x] = m1 @ m2" "suffix m1 a" "prefix m2 (x # b)"
    by (auto simp: sublist_append)
  then show "sublist (m @ [x]) a \<or> suffix m a \<or> sublist (m @ [x]) b"
  proof cases
    case 1
    then show ?thesis by simp
  next
    case 2
    then have "prefix (m @ [x]) (x # b) \<or> sublist (m @ [x]) b"
      by (simp add: sublist_Cons_right)
    then show ?thesis
    proof
      assume "prefix (m @ [x]) (x # b)"
      with assms have "m = []" by (cases m) auto
      then show ?thesis by simp
    next
      assume "sublist (m @ [x]) b"
      then show ?thesis by simp
    qed
  next
    case 3
    show ?thesis
    proof (cases m2)
      case Nil
      with 3 show ?thesis by auto
    next
      case (Cons y m2')
      with 3 have y: "y = x" by simp
      show ?thesis
      proof (cases m2' rule: rev_cases)
        case Nil
        with 3 Cons y show ?thesis by simp
      next
        case (snoc m2'' z)
        with 3 Cons y have "m @ [x] = (m1 @ x # m2'') @ [z]" by simp
        then have "m = m1 @ x # m2''" by (simp only: append1_eq_conv)
        with assms show ?thesis by simp
      qed
    qed
  qed
next
  assume "sublist (m @ [x]) a \<or> suffix m a \<or> sublist (m @ [x]) b"
  then show "sublist (m @ [x]) (a @ x # b)"
  proof (elim disjE)
    assume "sublist (m @ [x]) a"
    then show ?thesis by (simp add: sublist_append)
  next
    assume "suffix m a"
    then obtain p where "a = p @ m" by (auto simp: suffix_def)
    then have "a @ x # b = p @ (m @ [x]) @ b" by simp
    then show ?thesis unfolding sublist_def by blast
  next
    assume "sublist (m @ [x]) b"
    then show ?thesis by (simp add: sublist_append sublist_Cons_right)
  qed
qed

lemma header_cut:
  "sublist knowledge_header (f @ CHR 0x0A # rest)
     \<longleftrightarrow> sublist knowledge_header f \<or> suffix header_line f \<or> sublist knowledge_header rest"
  unfolding knowledge_header_def
  by (rule sublist_cut_last) (simp add: header_line_def)

lemma mismatch_prefix: "mismatch a b \<Longrightarrow> \<not> prefix a (b @ r)"
  by (induction a b rule: mismatch.induct) auto

lemma skip_literal: "lit_clear h p \<Longrightarrow> sublist h (p @ rest) = sublist h rest"
  by (induction p) (auto simp: sublist_Cons_right dest: mismatch_prefix [of _ _ rest])

lemma header_cut':
  "sublist knowledge_header (f @ nl @ rest)
     \<longleftrightarrow> sublist knowledge_header f \<or> suffix header_line f \<or> sublist knowledge_header rest"
  using header_cut [of f rest] by simp

lemma header_nonempty: "knowledge_header \<noteq> []"
  by (simp add: knowledge_header_def)

lemma header_literal: "knowledge_header = ''RELEVANT COPYWRITING KNOWLEDGE:\<newline>''"
  by (simp add: knowledge_header_def header_line_def)

lemma header_skip:
  "lit_clear ''RELEVANT COPYWRITING KNOWLEDGE:\<newline>'' p \<Longrightarrow>
     sublist knowledge_header (p @ rest) = sublist knowledge_header rest"
  unfolding header_literal by (rule skip_literal)

lemma clear_not_suffix: "lit_clear (h @ x) p \<Longrightarrow> h \<noteq> [] \<Longrightarrow> \<not> suffix h p"
proof (induction p)
  case Nil
  then show ?case by simp
next
  case (Cons c l)
  show ?case
  proof
    assume "suffix h (c # l)"
    then have "h = c # l \<or> suffix h l" by (simp add: suffix_Cons)
    then show False
    proof
      assume "h = c # l"
      with Cons.prems(1) have "mismatch ((c # l) @ x) ((c # l) @ [])" by simp
      then have "\<not> prefix ((c # l) @ x) (((c # l) @ []) @ x)" by (rule mismatch_prefix)
      then show False by simp
    next
      assume "suffix h l"
      with Cons show False by simp
    qed
  qed
qed

lemma header_not_literal:
  "lit_clear ''RELEVANT COPYWRITING KNOWLEDGE:\<newline>'' p \<Longrightarrow>
     sublist knowledge_header p = False"
  using skip_literal [of knowledge_header p "[]"] by (simp add: header_literal)

lemma header_line_not_suffix:
  "lit_clear ''RELEVANT COPYWRITING KNOWLEDGE:\<newline>'' p \<Longrightarrow>
     suffix header_line p = False"
  using clear_not_suffix [of header_line nl p] by (simp add: header_line_def)

lemmas scan_rules = append_assoc header_skip header_cut' header_not_literal
  header_line_not_suffix lit_clear.simps mismatch.simps char.inject simp_thms

lemma header_not_in_prompt_after: "\<not> sublist knowledge_header prompt_after"
proof -
  have "sublist knowledge_header (prompt_after @ []) = False"
    unfolding prompt_after_def by (simp only: scan_rules)
  then show ?thesis by simp
qed

lemma header_in_prompt:
  "sublist knowledge_header (prompt_before product audience custom @ prompt_after)
     \<longleftrightarrow> (\<exists>f \<in> set (field_values product audience custom).
            sublist knowledge_header f \<or> suffix header_line f)"
proof -
  have "sublist knowledge_header (prompt_before product audience custom @ prompt_after)
     \<longleftrightarrow> (sublist knowledge_header (p_name product) \<or> suffix header_line (p_name product))
       \<or> (sublist knowledge_header (p_type product) \<or> suffix header_line (p_type product))
       \<or> (sublist knowledge_header (p_features product) \<or> suffix header_line (p_features product))
       \<or> (sublist knowledge_header (p_uvp product) \<or> suffix header_line (p_uvp product))
       \<or> (sublist knowledge_header (a_primary audience) \<or> suffix header_line (a_primary audience))
       \<or> (sublist knowledge_header (a_pain_points audience) \<or> suffix header_line (a_pain_points audience))
       \<or> (sublist knowledge_header (a_desired_outcomes audience) \<or> suffix header_line (a_desired_outcomes audience))
       \<or> (sublist knowledge_header (c_tone custom) \<or> suffix header_line (c_tone custom))
       \<or> (sublist knowledge_header (c_length custom) \<or> suffix header_line (c_length custom))
       \<or> (sublist knowledge_header (c_emphasis custom) \<or> suffix header_line (c_emphasis custom))"
    unfolding prompt_before_def by (simp only: scan_rules header_not_in_prompt_after disj_assoc)
  then show ?thesis by (simp add: field_values_def)
qed

text \<open>
  C8, as amended. With an empty selection the knowledge context is the empty string, and
  the header string of the reference-knowledge section occurs in the prompt exactly when
  one of the ten interpolated field values contains it, or ends with the header's line
  \<open>RELEVANT COPYWRITING KNOWLEDGE:\<close> (the line break that follows every field in the
  template then completes the header). In particular the header does not occur when no
  field value contains that line.
\<close>

theorem header_without_selection:
  "build_knowledge_context knowledge_items [] = []
   \<and> (str_in knowledge_header
         (sales_letter_prompt knowledge_items product audience custom [])
       \<longleftrightarrow> (\<exists>f \<in> set (field_values product audience custom).
              str_in knowledge_header f \<or> suffix header_line f))"
  using header_in_prompt [of product audience custom]
  by (simp add: build_knowledge_context_def sales_letter_prompt_def prompt_template_def
        str_in_sublist)

theorem header_without_selection_witness:
  "\<not> str_in knowledge_header
     (sales_letter_prompt []
        \<lparr>p_name = ''Focus Planner'', p_type = ''Digital Product'',
          p_features = ''daily templates'', p_uvp = ''built by productivity coaches''\<rparr>
        \<lparr>a_primary = ''remote workers'', a_pain_points = ''distraction'',
          a_desired_outcomes = ''more deep work''\<rparr>
        \<lparr>c_tone = ''confident'', c_length = ''short'', c_emphasis = ''benefits''\<rparr> [])"
proof -
  have "\<not> (\<exists>f \<in> set (field_values
        \<lparr>p_name = ''Focus Planner'', p_type = ''Digital Product'',
          p_features = ''daily templates'', p_uvp = ''built by productivity coaches''\<rparr>
        \<lparr>a_primary = ''remote workers'', a_pain_points = ''distraction'',
          a_desired_outcomes = ''more deep work''\<rparr>
        \<lparr>c_tone = ''confident'', c_length = ''short'', c_emphasis = ''benefits''\<rparr>).
        str_in knowledge_header f \<or> suffix header_line f)"
    by code_simp
  with header_without_selection [of "[]"] show ?thesis by blast
qed

text \<open>
  The claim as stated fails for a field value that carries the header's line: a product
  named \<open>RELEVANT COPYWRITING KNOWLEDGE:\<close> puts the header string into the prompt although
  nothing is selected.
\<close>

theorem header_in_prompt_through_field:
  "str_in knowledge_header
     (sales_letter_prompt []
        \<lparr>p_name = ''RELEVANT COPYWRITING KNOWLEDGE:'', p_type = ''Digital Product'',
          p_features = ''daily templates'', p_uvp = ''built by productivity coaches''\<rparr>
        \<lparr>a_primary = ''remote workers'', a_pain_points = ''distraction'',
          a_desired_outcomes = ''more deep work''\<rparr>
        \<lparr>c_tone = ''confident'', c_length = ''short'', c_emphasis = ''benefits''\<rparr> [])"
  by code_simp

end
